theory Spec2Isabelle
  imports Complex_Main "HOL-Library.Log_Nat"
begin

section \<open>The overlay service of \<^verbatim>\<open>app.py\<close>\<close>

text \<open>
  The service has one handler, \<^verbatim>\<open>overlay_logo\<close>, and four helpers:
  \<^verbatim>\<open>require_token\<close>, \<^verbatim>\<open>clamp_float\<close>, \<^verbatim>\<open>load_logo\<close> and
  \<^verbatim>\<open>compute_position\<close>. Each is embedded below under its own name. Python
  integers are \<open>int\<close>, Python floats are IEEE doubles with their rounding, every
  \<^verbatim>\<open>raise\<close> is a value of the type \<open>error\<close>, the outbound requests a call makes
  are returned beside its result, and Pillow images are objects in a store.
\<close>

subsection \<open>Errors\<close>

text \<open>
  The handler raises \<^verbatim>\<open>HTTPException\<close> at eight places; each is a constructor named
  after the specification's error kind. An exception of Python or of Pillow that the
  handler does not catch is \<open>Uncaught\<close>: the framework answers it with status 500.
\<close>

datatype exc = ValueError | OverflowError | ZeroDivisionError | ImageError

datatype error =
    Unauthenticated | Forbidden | InvalidParameter | EmptyUpload | InvalidImageFormat
  | RemoteFetchFailed | MissingBaseImage | LogoNotFound | Uncaught exc

fun status_code :: "error \<Rightarrow> nat" where
  "status_code Unauthenticated = 401"
| "status_code Forbidden = 403"
| "status_code (Uncaught _) = 500"
| "status_code _ = 400"

definition and_then :: "'e + 'a \<Rightarrow> ('a \<Rightarrow> 'e + 'b) \<Rightarrow> 'e + 'b" where
  "and_then r f = (case r of Inl e \<Rightarrow> Inl e | Inr x \<Rightarrow> f x)"

subsection \<open>Python strings\<close>

text \<open>
  A \<open>char\<close> stands for a code point below 256. \<^verbatim>\<open>str.strip()\<close> removes the
  white space of that range at both ends (tab to carriage return, the four separators
  28 to 31, the space, NEL and the no-break space), and \<^verbatim>\<open>str.lower()\<close> maps the
  capital letters of ASCII and of Latin-1 to their small letters. \<open>given\<close> is Python's
  truth value of an optional string: \<^verbatim>\<open>None\<close> and the empty string are falsy.
\<close>

definition is_space :: "char \<Rightarrow> bool" where
  "is_space c =
     (let n = (of_char c :: nat)
      in (9 \<le> n \<and> n \<le> 13) \<or> (28 \<le> n \<and> n \<le> 32) \<or> n = 133 \<or> n = 160)"

definition py_strip :: "string \<Rightarrow> string" where
  "py_strip s = rev (dropWhile is_space (rev (dropWhile is_space s)))"

definition lower_char :: "char \<Rightarrow> char" where
  "lower_char c =
     (let n = (of_char c :: nat)
      in if (65 \<le> n \<and> n \<le> 90) \<or> (192 \<le> n \<and> n \<le> 222 \<and> n \<noteq> 215)
         then char_of (n + 32) else c)"

definition py_lower :: "string \<Rightarrow> string" where
  "py_lower s = map lower_char s"

fun given :: "string option \<Rightarrow> string option" where
  "given None = None"
| "given (Some s) = (if s = [] then None else Some s)"

subsection \<open>Python floats\<close>

text \<open>
  A float is a finite double, an infinity or NaN. The finite ones are the rationals
  they denote (the two zeros are one value; nothing here divides by a float zero
  without raising). \<open>round_double\<close> rounds an exact result to the nearest double,
  ties to even, with 53 bits above \<open>2 powi (- 1022)\<close> and the fixed spacing
  \<open>2 powi (- 1074)\<close> below; \<open>fround\<close> overflows to an infinity from \<open>2 ^ 1024\<close> on.
  A comparison with NaN is false.
\<close>

datatype pyfloat = Fin rat | PInf | NInf | NaN

definition round_half_even :: "rat \<Rightarrow> int" where
  "round_half_even x =
     (let f = \<lfloor>x\<rfloor>; d = x - of_int f
      in if d < 1 / 2 then f else if 1 / 2 < d then f + 1 else if even f then f else f + 1)"

definition binary_exponent :: "rat \<Rightarrow> int" where
  "binary_exponent x =
     (let (p, q) = quotient_of \<bar>x\<bar>;
          k = int (floorlog 2 (nat p)) - int (floorlog 2 (nat q))
      in if 2 powi k \<le> \<bar>x\<bar> then k else k - 1)"

definition round_double :: "rat \<Rightarrow> rat" where
  "round_double x =
     (if x = 0 then 0
      else let u = 2 powi (max (binary_exponent x) (- 1022) - 52)
           in of_int (round_half_even (x / u)) * u)"

definition fround :: "rat \<Rightarrow> pyfloat" where
  "fround x =
     (let r = round_double x
      in if 2 ^ 1024 \<le> r then PInf else if r \<le> - (2 ^ 1024) then NInf else Fin r)"

text \<open>A float literal of the source denotes the double nearest to its decimal value.\<close>

definition lit :: "rat \<Rightarrow> pyfloat" where
  "lit x = fround x"

fun flt :: "pyfloat \<Rightarrow> pyfloat \<Rightarrow> bool" where
  "flt NaN _ = False"
| "flt _ NaN = False"
| "flt (Fin a) (Fin b) = (a < b)"
| "flt _ NInf = False"
| "flt PInf _ = False"
| "flt _ _ = True"

definition fgt :: "pyfloat \<Rightarrow> pyfloat \<Rightarrow> bool" where
  "fgt a b = flt b a"

fun fle :: "pyfloat \<Rightarrow> pyfloat \<Rightarrow> bool" where
  "fle NaN _ = False"
| "fle _ NaN = False"
| "fle a b = (\<not> flt b a)"

fun fsgn :: "pyfloat \<Rightarrow> rat" where
  "fsgn (Fin a) = sgn a"
| "fsgn PInf = 1"
| "fsgn NInf = - 1"
| "fsgn NaN = 0"

fun fmul :: "pyfloat \<Rightarrow> pyfloat \<Rightarrow> pyfloat" where
  "fmul (Fin a) (Fin b) = fround (a * b)"
| "fmul NaN _ = NaN"
| "fmul _ NaN = NaN"
| "fmul a b =
     (let s = fsgn a * fsgn b in if s = 0 then NaN else if 0 < s then PInf else NInf)"

text \<open>Python's float division raises on a zero divisor before anything else.\<close>

fun fdiv :: "pyfloat \<Rightarrow> pyfloat \<Rightarrow> exc + pyfloat" where
  "fdiv a (Fin b) =
     (if b = 0 then Inl ZeroDivisionError
      else Inr (case a of Fin x \<Rightarrow> fround (x / b) | NaN \<Rightarrow> NaN
                | PInf \<Rightarrow> if 0 < b then PInf else NInf
                | NInf \<Rightarrow> if 0 < b then NInf else PInf))"
| "fdiv NaN _ = Inr NaN"
| "fdiv _ NaN = Inr NaN"
| "fdiv (Fin _) _ = Inr (Fin 0)"
| "fdiv _ _ = Inr NaN"

text \<open>
  \<^verbatim>\<open>int(x)\<close> truncates towards zero and raises on NaN and on the infinities;
  \<^verbatim>\<open>float(i)\<close>, and the conversion of the integer operand of a mixed product or
  quotient, rounds and raises when the integer is beyond the doubles.
\<close>

fun py_int :: "pyfloat \<Rightarrow> exc + int" where
  "py_int (Fin r) = Inr (if 0 \<le> r then \<lfloor>r\<rfloor> else \<lceil>r\<rceil>)"
| "py_int NaN = Inl ValueError"
| "py_int _ = Inl OverflowError"

definition py_float :: "int \<Rightarrow> exc + pyfloat" where
  "py_float i = (case fround (of_int i) of Fin r \<Rightarrow> Inr (Fin r) | _ \<Rightarrow> Inl OverflowError)"

definition int_times_float :: "int \<Rightarrow> pyfloat \<Rightarrow> exc + pyfloat" where
  "int_times_float i x = and_then (py_float i) (\<lambda>a. Inr (fmul a x))"

definition int_over_float :: "int \<Rightarrow> pyfloat \<Rightarrow> exc + pyfloat" where
  "int_over_float i x = and_then (py_float i) (\<lambda>a. fdiv a x)"

subsection \<open>The world outside the process\<close>

text \<open>
  What the handler reads from outside is a record: the environment, the remote servers,
  the image decoder, the file system and the two parsers of Python that read the
  configured defaults.
  \<^item> \<open>http_get url t\<close> is \<^verbatim>\<open>requests.get(url, timeout=t)\<close> followed by
    \<^verbatim>\<open>raise_for_status()\<close>: the body, or \<open>None\<close> when either raises.
  \<^item> \<open>image_open b\<close> is \<^verbatim>\<open>Image.open(io.BytesIO(b)).convert("RGBA")\<close> and
    \<open>image_open_path p\<close> is \<^verbatim>\<open>Image.open(p).convert("RGBA")\<close>: \<open>None\<close> when Pillow
    raises.
  \<^item> \<open>int_of_str\<close> and \<open>float_of_str\<close> are \<^verbatim>\<open>int(s)\<close> and \<^verbatim>\<open>float(s)\<close>:
    \<open>None\<close> for \<^verbatim>\<open>ValueError\<close>.
  An outbound request is recorded as \<open>Get url timeout\<close>.
\<close>

record pil_image =
  isize :: "int \<times> int"
  ipixels :: "nat list"

record world =
  environ :: "string \<rightharpoonup> string"
  http_get :: "string \<Rightarrow> nat \<Rightarrow> nat list option"
  image_open :: "nat list \<Rightarrow> pil_image option"
  path_exists :: "string \<Rightarrow> bool"
  image_open_path :: "string \<Rightarrow> pil_image option"
  int_of_str :: "string \<Rightarrow> int option"
  float_of_str :: "string \<Rightarrow> pyfloat option"

datatype call = Get string nat

definition getenv :: "world \<Rightarrow> string \<Rightarrow> string \<Rightarrow> string" where
  "getenv W name dflt = (case environ W name of None \<Rightarrow> dflt | Some v \<Rightarrow> v)"

text \<open>
  The three lines both remote branches share: the request, the status check and the
  decoding, inside one \<^verbatim>\<open>try\<close>.
\<close>

definition fetch_image :: "world \<Rightarrow> string \<Rightarrow> nat \<Rightarrow> pil_image option" where
  "fetch_image W url t = (case http_get W url t of None \<Rightarrow> None | Some body \<Rightarrow> image_open W body)"

subsection \<open>The helpers\<close>

text \<open>\<^verbatim>\<open>clamp_float\<close> (lines 30 to 35).\<close>

definition clamp_float :: "pyfloat \<Rightarrow> pyfloat \<Rightarrow> pyfloat \<Rightarrow> pyfloat" where
  "clamp_float value lo hi =
     (if flt value lo then lo
      else if fgt value hi then hi
      else value)"

text \<open>
  \<^verbatim>\<open>require_token\<close> (lines 14 to 28). The header starts with \<^verbatim>\<open>"Bearer "\<close> when
  \<^verbatim>\<open>replace\<close> runs, so the one occurrence it removes is the first seven characters.
\<close>

definition require_token :: "world \<Rightarrow> string option \<Rightarrow> error + unit" where
  "require_token W auth =
     (let expected = getenv W ''RUNNER_TOKEN'' []
      in if expected = [] then Inr ()
         else case given auth of
                None \<Rightarrow> Inl Unauthenticated
              | Some a \<Rightarrow>
                  if take 7 a \<noteq> ''Bearer '' then Inl Unauthenticated
                  else if py_strip (drop 7 a) \<noteq> expected then Inl Forbidden
                  else Inr ())"

text \<open>
  \<^verbatim>\<open>load_logo\<close> (lines 37 to 55). The \<^verbatim>\<open>except Exception\<close> of the remote branch
  catches every failure of the request and of the decoding; the local branch has no
  handler, so a file that exists and does not decode leaves \<^verbatim>\<open>load_logo\<close> with
  Pillow's exception.
\<close>

definition load_logo :: "world \<Rightarrow> string option \<Rightarrow> call list \<times> (error + pil_image)" where
  "load_logo W logo_url =
     (let (calls, remote) =
            (case given logo_url of
               Some url \<Rightarrow> ([Get url 10], fetch_image W url 10)
             | None \<Rightarrow> ([], None))
      in case remote of
           Some img \<Rightarrow> (calls, Inr img)
         | None \<Rightarrow>
             (let logo_path = getenv W ''LOGO_PATH'' ''/app/assets/logo.png''
              in if path_exists W logo_path
                 then (calls, case image_open_path W logo_path of
                                Some img \<Rightarrow> Inr img
                              | None \<Rightarrow> Inl (Uncaught ImageError))
                 else (calls, Inl LogoNotFound)))"

text \<open>
  \<^verbatim>\<open>compute_position\<close> (lines 57 to 67): four comparisons of the anchor with a
  literal, in the source's order, and the bottom right corner for everything else.
  Python's \<^verbatim>\<open>//\<close> is floor division, as \<open>div\<close> on \<open>int\<close> is.
\<close>

definition compute_position :: "int \<Rightarrow> int \<Rightarrow> int \<Rightarrow> int \<Rightarrow> string \<Rightarrow> int \<Rightarrow> int \<times> int" where
  "compute_position base_w base_h logo_w logo_h position margin_px =
     (if position = ''top_left'' then (margin_px, margin_px)
      else if position = ''top_right'' then (base_w - logo_w - margin_px, margin_px)
      else if position = ''bottom_left'' then (margin_px, base_h - logo_h - margin_px)
      else if position = ''center'' then ((base_w - logo_w) div 2, (base_h - logo_h) div 2)
      else (base_w - logo_w - margin_px, base_h - logo_h - margin_px))"

subsection \<open>Pillow\<close>

text \<open>
  Pillow is not part of the repository; what the handler relies on is a record of its
  pixel operations, and the definitions below add only what Pillow documents of their
  results: \<^verbatim>\<open>resize\<close> returns a new image of the size asked for and raises on a size
  that is not positive, \<^verbatim>\<open>split\<close>, \<^verbatim>\<open>enhance\<close> and \<^verbatim>\<open>copy\<close> return new images,
  \<^verbatim>\<open>putalpha\<close> and \<^verbatim>\<open>alpha_composite\<close> change the image they are called on and keep
  its size. Whether \<^verbatim>\<open>alpha_composite\<close> accepts a destination is left to the record:
  \<open>source_over\<close> is \<open>None\<close> where Pillow raises.
\<close>

record pil =
  lanczos :: "pil_image \<Rightarrow> int \<times> int \<Rightarrow> nat list"
  band3 :: "pil_image \<Rightarrow> nat list"
  brightness :: "pil_image \<Rightarrow> pyfloat \<Rightarrow> nat list"
  with_alpha :: "pil_image \<Rightarrow> pil_image \<Rightarrow> nat list"
  source_over :: "pil_image \<Rightarrow> pil_image \<Rightarrow> int \<times> int \<Rightarrow> nat list option"
  png_bytes :: "pil_image \<Rightarrow> nat list"

definition resize :: "pil \<Rightarrow> pil_image \<Rightarrow> int \<times> int \<Rightarrow> exc + pil_image" where
  "resize L img sz =
     (if fst sz \<le> 0 \<or> snd sz \<le> 0 then Inl ValueError
      else Inr \<lparr>isize = sz, ipixels = lanczos L img sz\<rparr>)"

definition alpha_composite :: "pil \<Rightarrow> pil_image \<Rightarrow> pil_image \<Rightarrow> int \<times> int \<Rightarrow> exc + pil_image" where
  "alpha_composite L dst src xy =
     (case source_over L dst src xy of
        None \<Rightarrow> Inl ValueError
      | Some px \<Rightarrow> Inr \<lparr>isize = isize dst, ipixels = px\<rparr>)"

text \<open>
  Image objects live in a store, a list indexed by address; a new object takes the next
  address.
\<close>

type_synonym store = "pil_image list"

definition new_image :: "pil_image \<Rightarrow> store \<Rightarrow> nat \<times> store" where
  "new_image img s = (length s, s @ [img])"

subsection \<open>The handler\<close>

record request =
  image_upload :: "nat list option"
  image_url :: "string option"
  logo_url :: "string option"
  position :: "string option"
  margin_px :: "int option"
  scale :: "pyfloat option"
  opacity :: "pyfloat option"
  authorization :: "string option"

record params =
  pos_of :: string
  margin_of :: int
  sc_of :: pyfloat
  op_of :: pyfloat

definition POSITIONS :: "string set" where
  "POSITIONS = {''top_left'', ''top_right'', ''bottom_left'', ''bottom_right'', ''center''}"

text \<open>
  \<^verbatim>\<open>overlay_logo\<close>, lines 86 to 98: the four parameters, in the source's order. A
  default is read and parsed only when the field is \<^verbatim>\<open>None\<close>.
\<close>

definition normalize_params :: "world \<Rightarrow> request \<Rightarrow> error + params" where
  "normalize_params W req =
     (let pos = py_lower (py_strip (case given (position req) of
                                      Some p \<Rightarrow> p
                                    | None \<Rightarrow> getenv W ''DEFAULT_POSITION'' ''bottom_right''))
      in if pos \<notin> POSITIONS then Inl InvalidParameter
         else
           and_then (case margin_px req of
                       Some m \<Rightarrow> Inr m
                     | None \<Rightarrow> (case int_of_str W (getenv W ''DEFAULT_MARGIN_PX'' ''24'') of
                                  Some m \<Rightarrow> Inr m | None \<Rightarrow> Inl (Uncaught ValueError)))
             (\<lambda>m. let margin = (if m < 0 then 0 else m) in
           and_then (case scale req of
                       Some v \<Rightarrow> Inr v
                     | None \<Rightarrow> (case float_of_str W (getenv W ''DEFAULT_SCALE'' ''0.18'') of
                                  Some v \<Rightarrow> Inr v | None \<Rightarrow> Inl (Uncaught ValueError)))
             (\<lambda>v. let sc = clamp_float v (lit (3 / 100)) (lit (80 / 100)) in
           and_then (case opacity req of
                       Some v \<Rightarrow> Inr v
                     | None \<Rightarrow> (case float_of_str W (getenv W ''DEFAULT_OPACITY'' ''0.95'') of
                                  Some v \<Rightarrow> Inr v | None \<Rightarrow> Inl (Uncaught ValueError)))
             (\<lambda>v. let op = clamp_float v (lit (5 / 100)) (lit 1) in
           Inr \<lparr>pos_of = pos, margin_of = margin, sc_of = sc, op_of = op\<rparr>))))"

text \<open>
  Lines 100 to 118: the base image. An \<^verbatim>\<open>UploadFile\<close> is always truthy, so
  \<^verbatim>\<open>if image\<close> asks whether the field is there; \<^verbatim>\<open>elif image_url\<close> asks for a
  string that is not empty.
\<close>

definition load_base :: "world \<Rightarrow> request \<Rightarrow> call list \<times> (error + pil_image)" where
  "load_base W req =
     (case image_upload req of
        Some raw \<Rightarrow>
          if raw = [] then ([], Inl EmptyUpload)
          else (case image_open W raw of
                  None \<Rightarrow> ([], Inl InvalidImageFormat)
                | Some base \<Rightarrow> ([], Inr base))
      | None \<Rightarrow>
          (case given (image_url req) of
             Some url \<Rightarrow>
               ([Get url 15], case fetch_image W url 15 of
                                None \<Rightarrow> Inl RemoteFetchFailed
                              | Some base \<Rightarrow> Inr base)
           | None \<Rightarrow> ([], Inl MissingBaseImage)))"

text \<open>
  Lines 124 to 126: the size of the resized logo, from the clamped scale, the width of
  the base and the size of the logo.
\<close>

definition target_size :: "pyfloat \<Rightarrow> int \<Rightarrow> int \<times> int \<Rightarrow> exc + int \<times> int" where
  "target_size sc base_w logo_size =
     and_then (int_times_float base_w sc) (\<lambda>a.
     and_then (py_int a) (\<lambda>i.
     let target_logo_w = max 1 i in
     and_then (py_float (fst logo_size)) (\<lambda>d.
     and_then (int_over_float target_logo_w d) (\<lambda>ratio.
     and_then (int_times_float (snd logo_size) ratio) (\<lambda>b.
     and_then (py_int b) (\<lambda>j.
     Inr (target_logo_w, max 1 j)))))))"

text \<open>
  Lines 137 to 139, on the store: the alpha band of the logo at address \<open>l\<close> is a new
  image (the other three bands \<^verbatim>\<open>split\<close> returns are dropped), its enhancement is
  another, and \<^verbatim>\<open>putalpha\<close> writes into the logo.
\<close>

definition apply_opacity :: "pil \<Rightarrow> pyfloat \<Rightarrow> nat \<Rightarrow> store \<Rightarrow> store" where
  "apply_opacity L op l s =
     (let (a, s1) = new_image \<lparr>isize = isize (s ! l), ipixels = band3 L (s ! l)\<rparr> s;
          (a', s2) = new_image \<lparr>isize = isize (s1 ! a), ipixels = brightness L (s1 ! a) op\<rparr> s1
      in s2[l := \<lparr>isize = isize (s2 ! l), ipixels = with_alpha L (s2 ! l) (s2 ! a')\<rparr>])"

text \<open>
  Lines 123 to 151, on the store: \<open>b\<close> and \<open>l\<close> are the addresses of the decoded base
  and logo. The result is the PNG and the store the steps leave behind.
\<close>

definition composite :: "pil \<Rightarrow> params \<Rightarrow> nat \<Rightarrow> nat \<Rightarrow> store \<Rightarrow> error + nat list \<times> store" where
  "composite L p b l s =
     (let (base_w, base_h) = isize (s ! b)
      in case target_size (sc_of p) base_w (isize (s ! l)) of
           Inl e \<Rightarrow> Inl (Uncaught e)
         | Inr (target_logo_w, target_logo_h) \<Rightarrow>
             (case resize L (s ! l) (target_logo_w, target_logo_h) of
                Inl e \<Rightarrow> Inl (Uncaught e)
              | Inr resized \<Rightarrow>
                  (let (logo, s1) = new_image resized s;
                       s2 = (if flt (op_of p) (lit 1) then apply_opacity L (op_of p) logo s1 else s1);
                       (x, y) = compute_position base_w base_h
                                  (fst (isize (s2 ! logo))) (snd (isize (s2 ! logo)))
                                  (pos_of p) (margin_of p);
                       (composed, s3) = new_image (s2 ! b) s2
                   in case alpha_composite L (s3 ! composed) (s3 ! logo) (x, y) of
                        Inl e \<Rightarrow> Inl (Uncaught e)
                      | Inr blended \<Rightarrow>
                          (let s4 = s3[composed := blended]
                           in Inr (png_bytes L (s4 ! composed), s4)))))"

text \<open>
  \<^verbatim>\<open>overlay_logo\<close> (lines 73 to 153). Each request decodes its own two images: the
  store of the compositing steps starts with the base at address 0 and the logo at 1.
  The result is the outbound requests made, and the error raised or the body of the
  \<^verbatim>\<open>image/png\<close> response.
\<close>

definition overlay_logo :: "pil \<Rightarrow> world \<Rightarrow> request \<Rightarrow> call list \<times> (error + nat list)" where
  "overlay_logo L W req =
     (case require_token W (authorization req) of
        Inl e \<Rightarrow> ([], Inl e)
      | Inr _ \<Rightarrow>
     (case normalize_params W req of
        Inl e \<Rightarrow> ([], Inl e)
      | Inr p \<Rightarrow>
     (case load_base W req of
        (calls, Inl e) \<Rightarrow> (calls, Inl e)
      | (calls, Inr base) \<Rightarrow>
     (case load_logo W (logo_url req) of
        (calls', Inl e) \<Rightarrow> (calls @ calls', Inl e)
      | (calls', Inr logo) \<Rightarrow>
          (calls @ calls',
           case composite L p 0 1 [base, logo] of
             Inl e \<Rightarrow> Inl e
           | Inr (out, s) \<Rightarrow> Inr out)))))"

subsection \<open>Example inputs\<close>

text \<open>
  A world with an empty environment whose servers do not answer, whose decoder reads
  the one upload \<open>[1]\<close> as a 4 by 2 image and which holds a 4 by 5 logo at the default
  path; a Pillow whose pixel operations return the pixels of their first argument; and
  a request that supplies every parameter.
\<close>

definition example_world :: world where
  "example_world =
     \<lparr>environ = Map.empty,
      http_get = (\<lambda>url t. None),
      image_open = (\<lambda>b. if b = [1] then Some \<lparr>isize = (4, 2), ipixels = [7]\<rparr> else None),
      path_exists = (\<lambda>p. p = ''/app/assets/logo.png''),
      image_open_path = (\<lambda>p. Some \<lparr>isize = (4, 5), ipixels = [9]\<rparr>),
      int_of_str = (\<lambda>s. if s = ''24'' then Some 24 else None),
      float_of_str = (\<lambda>s. if s = ''0.18'' then Some (lit (18 / 100))
                          else if s = ''0.95'' then Some (lit (95 / 100)) else None)\<rparr>"

definition example_pil :: pil where
  "example_pil =
     \<lparr>lanczos = (\<lambda>img sz. ipixels img),
      band3 = (\<lambda>img. ipixels img),
      brightness = (\<lambda>img f. ipixels img),
      with_alpha = (\<lambda>img a. ipixels img),
      source_over = (\<lambda>dst src xy. Some (ipixels dst @ ipixels src)),
      png_bytes = (\<lambda>img. ipixels img)\<rparr>"

definition example_request :: request where
  "example_request =
     \<lparr>image_upload = Some [1], image_url = None, logo_url = None,
      position = Some '' Top_Left  '', margin_px = Some (- 5),
      scale = Some (Fin (3 / 4)), opacity = Some (Fin 2), authorization = None\<rparr>"

section \<open>Properties\<close>

lemma floor_half: "\<lfloor>(of_int a :: real) / 2\<rfloor> = a div 2"
  using floor_divide_of_int_eq [of a 2, where ?'a = real] by simp

text \<open>
  C1. For every canvas size, overlay size, margin and anchor, the geometry calculator
  returns the margin corner for \<open>top_left\<close>, the mirrored corners for \<open>top_right\<close>
  and \<open>bottom_left\<close>, the floor of the halved differences for \<open>center\<close>, and the
  bottom right corner for \<open>bottom_right\<close> and for every string that is none of the
  other four. On a 1000 by 800 canvas, a 180 by 90 overlay with margin 24 anchored at
  \<open>bottom_right\<close> is placed at (796, 686).
\<close>

theorem compute_position_anchors:
  "compute_position bw bh lw lh ''top_left'' m = (m, m)
   \<and> compute_position bw bh lw lh ''top_right'' m = (bw - lw - m, m)
   \<and> compute_position bw bh lw lh ''bottom_left'' m = (m, bh - lh - m)
   \<and> compute_position bw bh lw lh ''center'' m
       = (\<lfloor>(of_int (bw - lw) :: real) / 2\<rfloor>, \<lfloor>(of_int (bh - lh) :: real) / 2\<rfloor>)
   \<and> compute_position bw bh lw lh ''bottom_right'' m = (bw - lw - m, bh - lh - m)
   \<and> (a \<notin> {''top_left'', ''top_right'', ''bottom_left'', ''center''}
        \<longrightarrow> compute_position bw bh lw lh a m = (bw - lw - m, bh - lh - m))
   \<and> compute_position 1000 800 180 90 ''bottom_right'' 24 = (796, 686)"
  by (simp add: compute_position_def floor_half del: of_int_diff)

theorem compute_position_anchors_witness:
  "''middle'' \<notin> {''top_left'', ''top_right'', ''bottom_left'', ''center''}
   \<and> compute_position 1000 800 180 90 ''middle'' 24 = (796, 686)
   \<and> compute_position 7 4 2 1 ''center'' 24 = (2, 1)
   \<and> compute_position 2 1 7 4 ''center'' 24 = (- 3, - 2)"
  using compute_position_anchors [of 1000 800 180 90 24 "''middle''"]
  by (simp add: compute_position_def)

subsection \<open>Floats and strings at the values the proofs evaluate\<close>

lemma round_double_3_100: "round_double (3 / 100) = 1080863910568919 / 36028797018963968"
  by code_simp

lemma round_double_4_5: "round_double (4 / 5) = 3602879701896397 / 4503599627370496"
  by code_simp

lemma round_double_1_20: "round_double (1 / 20) = 3602879701896397 / 72057594037927936"
  by code_simp

lemma round_double_exact:
  "round_double 1 = 1" "round_double 3 = 3" "round_double 4 = 4" "round_double 5 = 5"
  "round_double (3 / 4) = 3 / 4" "round_double (15 / 4) = 15 / 4"
  by code_simp+

lemma lit_3_100: "lit (3 / 100) = Fin (1080863910568919 / 36028797018963968)"
  by (simp add: lit_def fround_def round_double_3_100)

lemma lit_80_100: "lit (4 / 5) = Fin (3602879701896397 / 4503599627370496)"
  by (simp add: lit_def fround_def round_double_4_5)

lemma lit_5_100: "lit (1 / 20) = Fin (3602879701896397 / 72057594037927936)"
  by (simp add: lit_def fround_def round_double_1_20)

lemma lit_1: "lit 1 = Fin 1"
  by (simp add: lit_def fround_def round_double_exact)

lemma fround_exact:
  "fround 3 = Fin 3" "fround 4 = Fin 4" "fround 5 = Fin 5"
  "fround (3 / 4) = Fin (3 / 4)" "fround (15 / 4) = Fin (15 / 4)"
  by (simp_all add: fround_def round_double_exact)

lemma floor_15_4: "\<lfloor>15 / 4 :: rat\<rfloor> = 3"
  by (rule floor_unique) simp_all

lemma target_size_example: "target_size (Fin (3 / 4)) 4 (4, 5) = Inr (3, 3)"
  by (simp add: target_size_def int_times_float_def int_over_float_def and_then_def
      py_float_def fround_exact floor_15_4)

lemma top_left_normal: "py_lower (py_strip '' Top_Left  '') = ''top_left''"
  by code_simp

lemma POSITIONS_normal: "v \<in> POSITIONS \<Longrightarrow> py_lower (py_strip v) = v"
  unfolding POSITIONS_def by (elim insertE emptyE; hypsubst; code_simp)

subsection \<open>Clamping\<close>

lemma clamp_float_between:
  "fle lo hi \<Longrightarrow> flt v lo \<or> fgt v hi \<Longrightarrow>
   fle lo (clamp_float v lo hi) \<and> fle (clamp_float v lo hi) hi"
  by (cases v; cases lo; cases hi) (auto simp: clamp_float_def fgt_def)

lemma clamp_float_inside:
  "fle lo v \<Longrightarrow> fle v hi \<Longrightarrow> clamp_float v lo hi = v"
  by (cases v; cases lo; cases hi) (auto simp: clamp_float_def fgt_def)

lemma normalize_supplied:
  assumes "position req = Some p" and "p \<noteq> []" and "py_lower (py_strip p) \<in> POSITIONS"
  shows "normalize_params W (req\<lparr>margin_px := Some m, scale := Some s, opacity := Some v\<rparr>)
         = Inr \<lparr>pos_of = py_lower (py_strip p), margin_of = max 0 m,
                sc_of = clamp_float s (lit (3 / 100)) (lit (80 / 100)),
                op_of = clamp_float v (lit (5 / 100)) (lit 1)\<rparr>"
  using assms by (simp add: normalize_params_def and_then_def max_def)

text \<open>
  What the clamping does for the floats that compare with the bounds: a scale below
  0.03 or above 0.80 lands in the closed interval between them and a scale inside it
  is unchanged; an opacity below 0.05 or above 1.00 lands in the closed interval
  between them; a negative margin becomes 0, and with a valid position the parameter
  step returns these values whatever margin, scale and opacity are supplied. NaN
  compares with nothing and is the subject of the last theorem of this theory.
\<close>

theorem parameters_clamped:
  "(flt s (lit (3 / 100)) \<or> fgt s (lit (80 / 100)) \<longrightarrow>
      fle (lit (3 / 100)) (clamp_float s (lit (3 / 100)) (lit (80 / 100)))
      \<and> fle (clamp_float s (lit (3 / 100)) (lit (80 / 100))) (lit (80 / 100)))
   \<and> (fle (lit (3 / 100)) s \<and> fle s (lit (80 / 100)) \<longrightarrow>
        clamp_float s (lit (3 / 100)) (lit (80 / 100)) = s)
   \<and> (flt v (lit (5 / 100)) \<or> fgt v (lit 1) \<longrightarrow>
        fle (lit (5 / 100)) (clamp_float v (lit (5 / 100)) (lit 1))
        \<and> fle (clamp_float v (lit (5 / 100)) (lit 1)) (lit 1))
   \<and> (position req = Some p \<and> p \<noteq> [] \<and> py_lower (py_strip p) \<in> POSITIONS \<longrightarrow>
        (\<exists>q. normalize_params W (req\<lparr>margin_px := Some m, scale := Some s, opacity := Some v\<rparr>) = Inr q
             \<and> margin_of q = (if m < 0 then 0 else m)
             \<and> sc_of q = clamp_float s (lit (3 / 100)) (lit (80 / 100))
             \<and> op_of q = clamp_float v (lit (5 / 100)) (lit 1)))"
proof -
  have scale_bounds: "fle (lit (3 / 100)) (lit (80 / 100))"
    by (simp add: lit_3_100 lit_80_100)
  have opacity_bounds: "fle (lit (5 / 100)) (lit 1)"
    by (simp add: lit_5_100 lit_1)
  show ?thesis
    using clamp_float_between [OF scale_bounds, of s] clamp_float_inside [of "lit (3 / 100)" s]
      clamp_float_between [OF opacity_bounds, of v] normalize_supplied [where req = req and p = p and W = W and m = m and s = s and v = v]
    by (auto simp: max_def)
qed

theorem parameters_clamped_witness:
  "flt (Fin (1 / 100)) (lit (3 / 100))
   \<and> clamp_float (Fin (1 / 100)) (lit (3 / 100)) (lit (80 / 100)) = lit (3 / 100)
   \<and> fgt (Fin 2) (lit 1)
   \<and> clamp_float (Fin 2) (lit (5 / 100)) (lit 1) = lit 1
   \<and> position example_request = Some '' Top_Left  ''
   \<and> py_lower (py_strip '' Top_Left  '') \<in> POSITIONS
   \<and> (\<exists>q. normalize_params example_world
             (example_request\<lparr>margin_px := Some (- 5), scale := Some (Fin (1 / 100)),
                opacity := Some (Fin 2)\<rparr>) = Inr q
          \<and> margin_of q = 0 \<and> sc_of q = lit (3 / 100) \<and> op_of q = lit 1)"
  using parameters_clamped [where s = "Fin (1 / 100)" and v = "Fin 2" and req = example_request
      and p = "'' Top_Left  ''" and W = example_world and m = "- 5"]
  by (simp add: top_left_normal POSITIONS_def example_request_def clamp_float_def fgt_def
      lit_3_100 lit_80_100 lit_5_100 lit_1)

subsection \<open>Logo resolution\<close>

lemma load_logo_falsy:
  "given u = None \<Longrightarrow>
   load_logo W u =
     ([], if path_exists W (getenv W ''LOGO_PATH'' ''/app/assets/logo.png'')
          then (case image_open_path W (getenv W ''LOGO_PATH'' ''/app/assets/logo.png'') of
                  Some img \<Rightarrow> Inr img | None \<Rightarrow> Inl (Uncaught ImageError))
          else Inl LogoNotFound)"
  by (simp add: load_logo_def Let_def)

lemma load_logo_remote_failed:
  "given u = Some url \<Longrightarrow> fetch_image W url 10 = None \<Longrightarrow>
   load_logo W u = ([Get url 10], snd (load_logo W None))"
  by (simp add: load_logo_def Let_def)

lemma load_logo_remote_ok:
  "given u = Some url \<Longrightarrow> fetch_image W url 10 = Some img \<Longrightarrow>
   load_logo W u = ([Get url 10], Inr img)"
  by (simp add: load_logo_def Let_def)

text \<open>
  C10. With the empty string as \<open>logo_url\<close>, \<open>load_logo\<close> makes no outbound request
  and resolves as it does without a URL, from the configured local path alone; it
  fails with \<open>LogoNotFound\<close> exactly when no file is at that path.
\<close>

theorem load_logo_empty_url:
  "fst (load_logo W (Some [])) = []
   \<and> load_logo W (Some []) = load_logo W None
   \<and> (snd (load_logo W (Some [])) = Inl LogoNotFound
        \<longleftrightarrow> \<not> path_exists W (getenv W ''LOGO_PATH'' ''/app/assets/logo.png''))
   \<and> (path_exists W (getenv W ''LOGO_PATH'' ''/app/assets/logo.png'') \<longrightarrow>
        snd (load_logo W (Some []))
        = (case image_open_path W (getenv W ''LOGO_PATH'' ''/app/assets/logo.png'') of
             Some img \<Rightarrow> Inr img | None \<Rightarrow> Inl (Uncaught ImageError)))"
  by (simp add: load_logo_falsy split: option.splits)

theorem load_logo_empty_url_witness:
  "path_exists example_world (getenv example_world ''LOGO_PATH'' ''/app/assets/logo.png'')
   \<and> load_logo example_world (Some []) = ([], Inr \<lparr>isize = (4, 5), ipixels = [9]\<rparr>)
   \<and> snd (load_logo (example_world\<lparr>path_exists := (\<lambda>p. False)\<rparr>) (Some [])) = Inl LogoNotFound"
  using load_logo_empty_url [of example_world]
    load_logo_empty_url [of "example_world\<lparr>path_exists := (\<lambda>p. False)\<rparr>"]
  by (simp add: example_world_def getenv_def load_logo_falsy)

text \<open>
  C5, as the code has it. When the URL gives no image, whatever failed, \<open>load_logo\<close>
  goes on to the configured local path with the one request recorded; when a file is
  there and decodes, its image is the result; \<open>LogoNotFound\<close> is raised exactly when the
  URL step gave no image and no file is at the local path.
\<close>

theorem load_logo_fallback_chain:
  "(given u = Some url \<and> fetch_image W url 10 = None \<longrightarrow>
      load_logo W u = ([Get url 10], snd (load_logo W None)))
   \<and> ((case given u of None \<Rightarrow> None | Some a \<Rightarrow> fetch_image W a 10) = None
        \<and> path_exists W (getenv W ''LOGO_PATH'' ''/app/assets/logo.png'')
        \<and> image_open_path W (getenv W ''LOGO_PATH'' ''/app/assets/logo.png'') = Some img \<longrightarrow>
        snd (load_logo W u) = Inr img)
   \<and> (snd (load_logo W u) = Inl LogoNotFound \<longleftrightarrow>
        (case given u of None \<Rightarrow> None | Some a \<Rightarrow> fetch_image W a 10) = None
        \<and> \<not> path_exists W (getenv W ''LOGO_PATH'' ''/app/assets/logo.png''))"
proof (cases "given u")
  case None
  then show ?thesis
    by (simp add: load_logo_falsy split: option.splits)
next
  case (Some a)
  show ?thesis
  proof (cases "fetch_image W a 10")
    case None
    with Some show ?thesis
      by (simp add: load_logo_remote_failed load_logo_falsy split: option.splits)
  next
    case (Some img')
    with \<open>given u = Some a\<close> show ?thesis
      by (auto simp: load_logo_remote_ok)
  qed
qed

theorem load_logo_fallback_chain_witness:
  "given (Some ''http://cdn/logo.png'') = Some ''http://cdn/logo.png''
   \<and> fetch_image example_world ''http://cdn/logo.png'' 10 = None
   \<and> path_exists example_world (getenv example_world ''LOGO_PATH'' ''/app/assets/logo.png'')
   \<and> load_logo example_world (Some ''http://cdn/logo.png'')
       = ([Get ''http://cdn/logo.png'' 10], Inr \<lparr>isize = (4, 5), ipixels = [9]\<rparr>)
   \<and> snd (load_logo (example_world\<lparr>path_exists := (\<lambda>p. False)\<rparr>) (Some ''http://cdn/logo.png''))
       = Inl LogoNotFound"
  using load_logo_fallback_chain [of "Some ''http://cdn/logo.png''" "''http://cdn/logo.png''"
      example_world "\<lparr>isize = (4, 5), ipixels = [9]\<rparr>"]
    load_logo_fallback_chain [of "Some ''http://cdn/logo.png''" "''http://cdn/logo.png''"
      "example_world\<lparr>path_exists := (\<lambda>p. False)\<rparr>" "\<lparr>isize = (4, 5), ipixels = [9]\<rparr>"]
  by (simp add: example_world_def getenv_def fetch_image_def load_logo_falsy)

text \<open>
  The claim as written promises success whenever the local file exists. A file that
  exists and is not an image is the counterexample: the URL fails, the file is there,
  and \<open>load_logo\<close> ends with Pillow's exception, neither an image nor \<open>LogoNotFound\<close>.
\<close>

theorem load_logo_undecodable_file:
  "fetch_image (example_world\<lparr>image_open_path := (\<lambda>p. None)\<rparr>) ''http://cdn/logo.png'' 10 = None
   \<and> path_exists (example_world\<lparr>image_open_path := (\<lambda>p. None)\<rparr>)
         (getenv (example_world\<lparr>image_open_path := (\<lambda>p. None)\<rparr>) ''LOGO_PATH''
            ''/app/assets/logo.png'')
   \<and> load_logo (example_world\<lparr>image_open_path := (\<lambda>p. None)\<rparr>) (Some ''http://cdn/logo.png'')
       = ([Get ''http://cdn/logo.png'' 10], Inl (Uncaught ImageError))"
  by (simp add: example_world_def getenv_def fetch_image_def load_logo_def)

subsection \<open>The steps of the handler\<close>

lemma normalize_params_error:
  "normalize_params W req = Inl e \<Longrightarrow>
   (e = InvalidParameter
      \<and> py_lower (py_strip (case given (position req) of Some p \<Rightarrow> p
                               | None \<Rightarrow> getenv W ''DEFAULT_POSITION'' ''bottom_right''))
          \<notin> POSITIONS)
   \<or> e = Uncaught ValueError"
  by (auto simp: normalize_params_def and_then_def Let_def split: if_splits option.splits)

lemma normalize_params_invalid:
  "py_lower (py_strip (case given (position req) of Some p \<Rightarrow> p
                         | None \<Rightarrow> getenv W ''DEFAULT_POSITION'' ''bottom_right''))
     \<notin> POSITIONS \<Longrightarrow>
   normalize_params W req = Inl InvalidParameter"
  by (simp add: normalize_params_def Let_def)

lemma load_base_error:
  "load_base W req = (calls, Inl e) \<Longrightarrow>
   e \<in> {EmptyUpload, InvalidImageFormat, RemoteFetchFailed, MissingBaseImage}"
  by (auto simp: load_base_def split: if_splits option.splits)


lemma load_logo_error:
  "load_logo W u = (calls, Inl e) \<Longrightarrow> e \<in> {LogoNotFound, Uncaught ImageError}"
  by (auto simp: load_logo_def Let_def split: if_splits option.splits prod.splits)

lemma composite_error:
  "composite L p b l s = Inl e \<Longrightarrow> \<exists>x. e = Uncaught x"
  by (auto simp: composite_def Let_def split: sum.splits prod.splits)

lemma overlay_logo_steps:
  assumes "require_token W (authorization req) = Inr ()"
    and "normalize_params W req = Inr p"
    and "load_base W req = (calls, Inr base)"
    and "load_logo W (logo_url req) = (calls', Inr logo)"
  shows "overlay_logo L W req =
           (calls @ calls',
            case composite L p 0 1 [base, logo] of Inl e \<Rightarrow> Inl e | Inr (out, s) \<Rightarrow> Inr out)"
  using assms by (simp add: overlay_logo_def)



lemma bottom_right_normal: "py_lower (py_strip ''bottom_right'') = ''bottom_right''"
  by code_simp

lemma middle_normal: "py_lower (py_strip ''middle'') = ''middle''"
  by code_simp

lemma example_composite:
  "composite example_pil \<lparr>pos_of = a, margin_of = 0, sc_of = Fin (3 / 4), op_of = Fin 1\<rparr> 0 (Suc 0)
     [\<lparr>isize = (4, 2), ipixels = [7]\<rparr>, \<lparr>isize = (4, 5), ipixels = [9]\<rparr>]
   = Inr ([7, 9],
          [\<lparr>isize = (4, 2), ipixels = [7]\<rparr>, \<lparr>isize = (4, 5), ipixels = [9]\<rparr>,
           \<lparr>isize = (3, 3), ipixels = [9]\<rparr>, \<lparr>isize = (4, 2), ipixels = [7, 9]\<rparr>])"
  by (simp add: composite_def target_size_example resize_def new_image_def lit_1
      alpha_composite_def example_pil_def split: prod.splits)

lemma overlay_logo_valid_position:
  assumes "py_lower (py_strip (case given (position req) of Some p \<Rightarrow> p
                                | None \<Rightarrow> getenv W ''DEFAULT_POSITION'' ''bottom_right''))
           \<in> POSITIONS"
  shows "snd (overlay_logo L W req) \<noteq> Inl InvalidParameter"
proof (cases "require_token W (authorization req)")
  case (Inl e)
  then have "e \<noteq> InvalidParameter"
    by (auto simp: require_token_def Let_def split: if_splits option.splits)
  with Inl show ?thesis
    by (simp add: overlay_logo_def)
next
  case (Inr u)
  with assms show ?thesis
    by (auto simp: overlay_logo_def split: sum.splits prod.splits
        dest!: normalize_params_error load_base_error load_logo_error composite_error)
qed

text \<open>
  C4, as the code has it. The position that is checked is the supplied string, or the
  configured default when the field is absent or the empty string; it is stripped and
  lower-cased and looked up among the five anchors. A value outside the five makes the
  parameter step fail with \<open>InvalidParameter\<close>, status 400, and with it the request
  once the token check has passed, before any outbound request; a value among the five
  never gives that failure. The five anchors themselves are unchanged by the stripping
  and lower-casing.
\<close>

theorem position_validated:
  "(normalize_params W req = Inl InvalidParameter \<longleftrightarrow>
      py_lower (py_strip (case given (position req) of Some p \<Rightarrow> p
                            | None \<Rightarrow> getenv W ''DEFAULT_POSITION'' ''bottom_right''))
        \<notin> POSITIONS)
   \<and> (require_token W (authorization req) = Inr ()
        \<and> py_lower (py_strip (case given (position req) of Some p \<Rightarrow> p
                                | None \<Rightarrow> getenv W ''DEFAULT_POSITION'' ''bottom_right''))
            \<notin> POSITIONS \<longrightarrow>
        overlay_logo L W req = ([], Inl InvalidParameter))
   \<and> (py_lower (py_strip (case given (position req) of Some p \<Rightarrow> p
                            | None \<Rightarrow> getenv W ''DEFAULT_POSITION'' ''bottom_right''))
          \<in> POSITIONS \<longrightarrow>
        snd (overlay_logo L W req) \<noteq> Inl InvalidParameter)
   \<and> status_code InvalidParameter = 400
   \<and> (\<forall>v\<in>POSITIONS. py_lower (py_strip v) = v)"
proof -
  have "normalize_params W req = Inl InvalidParameter \<longleftrightarrow>
      py_lower (py_strip (case given (position req) of Some p \<Rightarrow> p
                            | None \<Rightarrow> getenv W ''DEFAULT_POSITION'' ''bottom_right''))
        \<notin> POSITIONS"
    using normalize_params_error [where req = req and W = W and e = InvalidParameter]
      normalize_params_invalid [where req = req and W = W]
    by auto
  then show ?thesis
    using overlay_logo_valid_position [where req = req and W = W and L = L]
    by (auto simp: overlay_logo_def POSITIONS_normal)
qed

theorem position_validated_witness:
  "require_token example_world (authorization example_request) = Inr ()
   \<and> py_lower (py_strip ''middle'') \<notin> POSITIONS
   \<and> normalize_params example_world (example_request\<lparr>position := Some ''middle''\<rparr>)
       = Inl InvalidParameter
   \<and> overlay_logo example_pil example_world (example_request\<lparr>position := Some ''middle''\<rparr>)
       = ([], Inl InvalidParameter)
   \<and> py_lower (py_strip '' Top_Left  '') \<in> POSITIONS
   \<and> snd (overlay_logo example_pil example_world example_request) \<noteq> Inl InvalidParameter
   \<and> ''center'' \<in> POSITIONS \<and> py_lower (py_strip ''center'') = ''center''"
  using position_validated [where W = example_world and L = example_pil
      and req = "example_request\<lparr>position := Some ''middle''\<rparr>"]
    position_validated [where W = example_world and L = example_pil and req = example_request]
  by (simp add: example_request_def example_world_def require_token_def getenv_def
      top_left_normal middle_normal POSITIONS_def)

text \<open>
  The claim as written speaks of every supplied string. The empty string is the
  counterexample: it is none of the five anchors, yet line 86 replaces it by the
  default, and the request is served with the logo at the bottom right.
\<close>

theorem empty_position_served:
  "py_lower (py_strip []) \<notin> POSITIONS
   \<and> require_token example_world (authorization (example_request\<lparr>position := Some []\<rparr>)) = Inr ()
   \<and> normalize_params example_world (example_request\<lparr>position := Some []\<rparr>)
       = Inr \<lparr>pos_of = ''bottom_right'', margin_of = 0, sc_of = Fin (3 / 4), op_of = Fin 1\<rparr>
   \<and> overlay_logo example_pil example_world (example_request\<lparr>position := Some []\<rparr>)
       = ([], Inr [7, 9])"
proof -
  have params: "normalize_params example_world (example_request\<lparr>position := Some []\<rparr>)
      = Inr \<lparr>pos_of = ''bottom_right'', margin_of = 0, sc_of = Fin (3 / 4), op_of = Fin 1\<rparr>"
    by (simp add: example_request_def example_world_def getenv_def normalize_params_def
        and_then_def bottom_right_normal POSITIONS_def clamp_float_def fgt_def
        lit_3_100 lit_80_100 lit_5_100 lit_1)
  have token: "require_token example_world (authorization (example_request\<lparr>position := Some []\<rparr>))
      = Inr ()"
    by (simp add: example_request_def example_world_def require_token_def getenv_def)
  have base: "load_base example_world (example_request\<lparr>position := Some []\<rparr>)
      = ([], Inr \<lparr>isize = (4, 2), ipixels = [7]\<rparr>)"
    by (simp add: example_request_def example_world_def load_base_def)
  have logo: "load_logo example_world (logo_url (example_request\<lparr>position := Some []\<rparr>))
      = ([], Inr \<lparr>isize = (4, 5), ipixels = [9]\<rparr>)"
    by (simp add: example_request_def example_world_def load_logo_def getenv_def)
  have "py_lower (py_strip []) \<notin> POSITIONS"
    by (simp add: py_lower_def py_strip_def POSITIONS_def)
  then show ?thesis
    using overlay_logo_steps [OF token params base logo, where L = example_pil] token params
    by (simp add: example_composite)
qed

subsection \<open>The compositing steps on the store\<close>

lemma apply_opacity_frame:
  "l < length s \<Longrightarrow>
   length (apply_opacity L f l s) = length s + 2
   \<and> (\<forall>i < length s. i \<noteq> l \<longrightarrow> apply_opacity L f l s ! i = s ! i)
   \<and> isize (apply_opacity L f l s ! l) = isize (s ! l)"
  by (simp add: apply_opacity_def new_image_def nth_append)

text \<open>
  C8. The overlay is composited onto a copy: when the steps succeed on a store that
  holds the base at \<open>b\<close> and the logo at \<open>l\<close>, every image the store held before,
  the base among them, is unchanged; the image that was blended is a new object whose
  pixels Pillow computed from the pixels of the base, and the PNG is its encoding.
\<close>

theorem composite_keeps_base:
  assumes "b < length s" and "l < length s"
    and "composite L p b l s = Inr (out, s')"
  shows "s' ! b = s ! b
         \<and> take (length s) s' = s
         \<and> (\<exists>c logo xy. length s \<le> c \<and> c < length s' \<and> c \<noteq> b
               \<and> alpha_composite L (s ! b) logo xy = Inr (s' ! c)
               \<and> out = png_bytes L (s' ! c))"
proof -
  obtain base_w base_h where size_b: "isize (s ! b) = (base_w, base_h)"
    by (cases "isize (s ! b)")
  from assms(3) obtain tw th where target: "target_size (sc_of p) base_w (isize (s ! l)) = Inr (tw, th)"
    by (auto simp: composite_def size_b split: sum.splits)
  from assms(3) obtain resized where resized: "resize L (s ! l) (tw, th) = Inr resized"
    by (auto simp: composite_def size_b target split: sum.splits)
  define s1 where "s1 = s @ [resized]"
  define s2 where "s2 = (if flt (op_of p) (lit 1) then apply_opacity L (op_of p) (length s) s1 else s1)"
  define xy where "xy = compute_position base_w base_h (fst (isize (s2 ! length s)))
      (snd (isize (s2 ! length s))) (pos_of p) (margin_of p)"
  define c where "c = length s2"
  have len_s2: "length s < length s2"
    using apply_opacity_frame [of "length s" s1 L "op_of p"] by (simp add: s2_def s1_def)
  have old: "i < length s \<Longrightarrow> s2 ! i = s ! i" for i
    using apply_opacity_frame [of "length s" s1 L "op_of p"]
    by (simp add: s2_def s1_def nth_append)
  from assms(3) obtain blended
    where blended: "alpha_composite L (s2 ! b) (s2 ! length s) xy = Inr blended"
      and result: "out = png_bytes L blended" "s' = (s2 @ [s2 ! b])[c := blended]"
    using len_s2
    by (auto simp: composite_def size_b target resized new_image_def Let_def nth_append
        s1_def [symmetric] s2_def [symmetric] xy_def [symmetric] c_def
        split: sum.splits prod.splits)
  have at_c: "s' ! c = blended"
    by (simp add: result c_def)
  have "s' ! b = s ! b"
    using assms(1) len_s2 old [of b] by (simp add: result c_def nth_append)
  moreover have "take (length s) s' = s"
    using len_s2 old by (auto simp: result c_def nth_append intro!: nth_equalityI)
  moreover have "length s \<le> c \<and> c < length s' \<and> c \<noteq> b"
    using assms(1) len_s2 by (simp add: result c_def)
  moreover have "alpha_composite L (s ! b) (s2 ! length s) xy = Inr (s' ! c)"
    using blended old [of b] assms(1) by (simp add: at_c)
  moreover have "out = png_bytes L (s' ! c)"
    by (simp add: result(1) at_c)
  ultimately show ?thesis
    by blast
qed

theorem composite_keeps_base_witness:
  "(0::nat) < length [\<lparr>isize = (4, 2), ipixels = [7]\<rparr>, \<lparr>isize = (4, 5), ipixels = [9]\<rparr>]
   \<and> composite example_pil
         \<lparr>pos_of = ''center'', margin_of = 0, sc_of = Fin (3 / 4), op_of = Fin (1 / 2)\<rparr> 0 (Suc 0)
         [\<lparr>isize = (4, 2), ipixels = [7]\<rparr>, \<lparr>isize = (4, 5), ipixels = [9]\<rparr>]
       = Inr ([7, 9],
              [\<lparr>isize = (4, 2), ipixels = [7]\<rparr>, \<lparr>isize = (4, 5), ipixels = [9]\<rparr>,
               \<lparr>isize = (3, 3), ipixels = [9]\<rparr>, \<lparr>isize = (3, 3), ipixels = [9]\<rparr>,
               \<lparr>isize = (3, 3), ipixels = [9]\<rparr>, \<lparr>isize = (4, 2), ipixels = [7, 9]\<rparr>])
   \<and> [\<lparr>isize = (4, 2), ipixels = [7]\<rparr>, \<lparr>isize = (4, 5), ipixels = [9]\<rparr>,
        \<lparr>isize = (3, 3), ipixels = [9]\<rparr>, \<lparr>isize = (3, 3), ipixels = [9]\<rparr>,
        \<lparr>isize = (3, 3), ipixels = [9]\<rparr>, \<lparr>isize = (4, 2), ipixels = [7, 9]\<rparr>] ! 0
       = \<lparr>isize = (4, 2), ipixels = [7]\<rparr>"
  using composite_keeps_base [where b = 0 and l = "Suc 0" and L = example_pil
      and p = "\<lparr>pos_of = ''center'', margin_of = 0, sc_of = Fin (3 / 4), op_of = Fin (1 / 2)\<rparr>"
      and s = "[\<lparr>isize = (4, 2), ipixels = [7]\<rparr>, \<lparr>isize = (4, 5), ipixels = [9]\<rparr>]"
      and out = "[7, 9]"
      and s' = "[\<lparr>isize = (4, 2), ipixels = [7]\<rparr>, \<lparr>isize = (4, 5), ipixels = [9]\<rparr>,
               \<lparr>isize = (3, 3), ipixels = [9]\<rparr>, \<lparr>isize = (3, 3), ipixels = [9]\<rparr>,
               \<lparr>isize = (3, 3), ipixels = [9]\<rparr>, \<lparr>isize = (4, 2), ipixels = [7, 9]\<rparr>]"]
  by (simp add: composite_def target_size_example resize_def new_image_def lit_1
      apply_opacity_def alpha_composite_def example_pil_def split: prod.splits)

text \<open>
  C9. With Pillow fixed, the body of the response is a function of the parameter values
  and of the two decoded images alone. Two runs of the handler that pass the token
  check, arrive at the same parameters and decode the same base and the same logo,
  wherever the images came from, return the same result, byte for byte; it is what the
  compositing steps make of those parameters and images.
\<close>

theorem overlay_logo_deterministic:
  assumes "require_token W (authorization req) = Inr ()"
    and "require_token W' (authorization req') = Inr ()"
    and "normalize_params W req = Inr p" and "normalize_params W' req' = Inr p"
    and "snd (load_base W req) = Inr base" and "snd (load_base W' req') = Inr base"
    and "snd (load_logo W (logo_url req)) = Inr logo"
    and "snd (load_logo W' (logo_url req')) = Inr logo"
  shows "snd (overlay_logo L W req) = snd (overlay_logo L W' req')
         \<and> snd (overlay_logo L W req)
             = (case composite L p 0 1 [base, logo] of
                  Inl e \<Rightarrow> Inl e | Inr (out, s) \<Rightarrow> Inr out)"
proof -
  obtain c1 c2 c1' c2' where
    "load_base W req = (c1, Inr base)" "load_logo W (logo_url req) = (c2, Inr logo)"
    "load_base W' req' = (c1', Inr base)" "load_logo W' (logo_url req') = (c2', Inr logo)"
    using assms(5-8) by (metis prod.collapse)
  then show ?thesis
    using assms(1-4) by (simp add: overlay_logo_steps)
qed

theorem overlay_logo_deterministic_witness:
  "require_token example_world (authorization example_request) = Inr ()
   \<and> normalize_params example_world example_request
       = Inr \<lparr>pos_of = ''top_left'', margin_of = 0, sc_of = Fin (3 / 4), op_of = Fin 1\<rparr>
   \<and> normalize_params
         (example_world\<lparr>http_get := (\<lambda>url t. if url = ''http://img/base.png'' then Some [1] else None)\<rparr>)
         (example_request\<lparr>image_upload := None, image_url := Some ''http://img/base.png''\<rparr>)
       = Inr \<lparr>pos_of = ''top_left'', margin_of = 0, sc_of = Fin (3 / 4), op_of = Fin 1\<rparr>
   \<and> load_base example_world example_request = ([], Inr \<lparr>isize = (4, 2), ipixels = [7]\<rparr>)
   \<and> load_base
         (example_world\<lparr>http_get := (\<lambda>url t. if url = ''http://img/base.png'' then Some [1] else None)\<rparr>)
         (example_request\<lparr>image_upload := None, image_url := Some ''http://img/base.png''\<rparr>)
       = ([Get ''http://img/base.png'' 15], Inr \<lparr>isize = (4, 2), ipixels = [7]\<rparr>)
   \<and> snd (overlay_logo example_pil example_world example_request) = Inr [7, 9]
   \<and> snd (overlay_logo example_pil
         (example_world\<lparr>http_get := (\<lambda>url t. if url = ''http://img/base.png'' then Some [1] else None)\<rparr>)
         (example_request\<lparr>image_upload := None, image_url := Some ''http://img/base.png''\<rparr>))
       = Inr [7, 9]"
proof -
  let ?W = "example_world\<lparr>http_get := (\<lambda>url t. if url = ''http://img/base.png'' then Some [1] else None)\<rparr>"
  let ?r = "example_request\<lparr>image_upload := None, image_url := Some ''http://img/base.png''\<rparr>"
  let ?p = "\<lparr>pos_of = ''top_left'', margin_of = 0, sc_of = Fin (3 / 4), op_of = Fin 1\<rparr>"
  have t1: "require_token example_world (authorization example_request) = Inr ()"
    and t2: "require_token ?W (authorization ?r) = Inr ()"
    by (simp_all add: example_request_def example_world_def require_token_def getenv_def)
  have p1: "normalize_params example_world example_request = Inr ?p"
    and p2: "normalize_params ?W ?r = Inr ?p"
    by (simp_all add: example_request_def example_world_def getenv_def normalize_params_def
        and_then_def top_left_normal POSITIONS_def clamp_float_def fgt_def
        lit_3_100 lit_80_100 lit_5_100 lit_1)
  have b1: "load_base example_world example_request = ([], Inr \<lparr>isize = (4, 2), ipixels = [7]\<rparr>)"
    and b2: "load_base ?W ?r = ([Get ''http://img/base.png'' 15], Inr \<lparr>isize = (4, 2), ipixels = [7]\<rparr>)"
    by (simp_all add: example_request_def example_world_def load_base_def fetch_image_def)
  have l1: "snd (load_logo example_world (logo_url example_request)) = Inr \<lparr>isize = (4, 5), ipixels = [9]\<rparr>"
    and l2: "snd (load_logo ?W (logo_url ?r)) = Inr \<lparr>isize = (4, 5), ipixels = [9]\<rparr>"
    by (simp_all add: example_request_def example_world_def load_logo_def getenv_def)
  have "snd (overlay_logo example_pil example_world example_request) = Inr [7, 9]"
    and "snd (overlay_logo example_pil ?W ?r) = Inr [7, 9]"
    using overlay_logo_deterministic [OF t1 t2 p1 p2 _ _ l1 l2, where L = example_pil] b1 b2
    by (auto simp: example_composite)
  then show ?thesis
    using t1 p1 p2 b1 b2 by simp
qed

subsection \<open>Rounding to a double\<close>

lemma round_half_even_near:
  "\<bar>of_int (round_half_even y) - y\<bar> \<le> 1 / 2"
proof -
  have "of_int \<lfloor>y\<rfloor> \<le> y" and "y < of_int \<lfloor>y\<rfloor> + 1"
    by linarith+
  then show ?thesis
    by (auto simp: round_half_even_def Let_def abs_le_iff)
qed

lemma round_half_even_nonneg: "0 \<le> y \<Longrightarrow> 0 \<le> round_half_even y"
  by (auto simp: round_half_even_def Let_def)

lemma binary_exponent_le:
  assumes "x \<noteq> 0"
  shows "2 powi (binary_exponent x) \<le> \<bar>x\<bar>"
proof -
  obtain p q where pq: "quotient_of \<bar>x\<bar> = (p, q)"
    by (cases "quotient_of \<bar>x\<bar>")
  then have q: "0 < q" and x: "\<bar>x\<bar> = of_int p / of_int q"
    by (simp_all add: quotient_of_denom_pos quotient_of_div)
  from assms have "0 < \<bar>x\<bar>"
    by simp
  with q have "0 < (of_int p :: rat)"
    by (simp add: x zero_less_divide_iff)
  then have p: "0 < p"
    by simp
  define np where "np = floorlog 2 (nat p)"
  define nq where "nq = floorlog 2 (nat q)"
  have bounds_p: "2 ^ (np - 1) \<le> nat p" "nat p < 2 ^ np"
    using floorlog_bounds [of "nat p" 2] p by (simp_all add: np_def)
  have np: "0 < np"
  proof (rule ccontr)
    assume "\<not> 0 < np"
    with bounds_p(2) p show False
      by simp
  qed
  have "(of_nat (2 ^ (np - 1)) :: rat) \<le> of_nat (nat p)"
    using bounds_p(1) by (simp only: of_nat_le_iff)
  then have low_p: "(2::rat) ^ (np - 1) \<le> of_int p"
    using p by simp
  have "nat q < 2 ^ nq"
    using floorlog_bounds [of "nat q" 2] q by (simp add: nq_def)
  then have "(of_nat (nat q) :: rat) < of_nat (2 ^ nq)"
    by (simp only: of_nat_less_iff)
  then have high_q: "of_int q \<le> (2::rat) ^ nq"
    using q by simp
  have "(2::rat) powi (int np - int nq - 1) = 2 ^ (np - 1) / 2 ^ nq"
  proof -
    have "int np - int nq - 1 = int (np - 1) - int nq"
      using np by simp
    moreover have "(2::rat) powi (int (np - 1) - int nq) = 2 powi int (np - 1) / 2 powi int nq"
      by (rule power_int_diff) simp
    ultimately show ?thesis
      by (simp only: power_int_of_nat)
  qed
  also have "\<dots> \<le> of_int p / of_int q"
    using low_p high_q q p by (intro frac_le) simp_all
  finally have "(2::rat) powi (int np - int nq - 1) \<le> \<bar>x\<bar>"
    by (simp add: x)
  then show ?thesis
    by (simp add: binary_exponent_def pq np_def nq_def Let_def)
qed

lemma round_double_near: "\<bar>round_double x - x\<bar> \<le> max (\<bar>x\<bar> / 4) (1 / 4)"
proof (cases "x = 0")
  case True
  then show ?thesis
    by (simp add: round_double_def)
next
  case False
  define u :: rat where "u = 2 powi (max (binary_exponent x) (- 1022) - 52)"
  have u: "0 < u"
    by (simp add: u_def)
  have "u \<le> max (\<bar>x\<bar> / 2) (1 / 2)"
  proof (cases "- 1022 \<le> binary_exponent x")
    case True
    then have "u = 2 powi (binary_exponent x) / 2 ^ 52"
      by (simp add: u_def max_def power_int_diff)
    also have "\<dots> \<le> \<bar>x\<bar> / 2 ^ 52"
      using binary_exponent_le [OF False] by (simp add: divide_right_mono)
    also have "\<dots> \<le> \<bar>x\<bar> / 2"
      by (intro divide_left_mono) simp_all
    finally show ?thesis
      by simp
  next
    case False
    then have "u = 2 powi (- 1074)"
      by (simp add: u_def max_def)
    also have "\<dots> \<le> 1 / 2"
      by (simp add: power_int_minus field_simps)
    finally show ?thesis
      by simp
  qed
  moreover have "\<bar>round_double x - x\<bar> \<le> u / 2"
  proof -
    have "round_double x - x = (of_int (round_half_even (x / u)) - x / u) * u"
      using u \<open>x \<noteq> 0\<close> by (simp add: round_double_def u_def [symmetric] Let_def field_simps)
    then have "\<bar>round_double x - x\<bar> = \<bar>of_int (round_half_even (x / u)) - x / u\<bar> * u"
      using u by (simp add: abs_mult)
    also have "\<dots> \<le> 1 / 2 * u"
      using round_half_even_near [of "x / u"] u by (intro mult_right_mono) simp_all
    finally show ?thesis
      by simp
  qed
  ultimately show ?thesis
    by (auto simp: max_def split: if_splits)
qed

lemma round_double_nonneg: "0 \<le> x \<Longrightarrow> 0 \<le> round_double x"
  by (simp add: round_double_def Let_def round_half_even_nonneg)

lemma fround_finite:
  assumes "0 \<le> x" and "x \<le> 2 ^ 1000"
  shows "fround x = Fin (round_double x)" and "0 \<le> round_double x"
    and "round_double x \<le> 2 * x + 1"
proof -
  show nonneg: "0 \<le> round_double x"
    using assms(1) by (rule round_double_nonneg)
  show upper: "round_double x \<le> 2 * x + 1"
    using round_double_near [of x] assms(1) by (auto simp: max_def abs_le_iff split: if_splits)
  have "2 * x + 1 < 2 ^ 1024"
    using assms(2) by simp
  with upper nonneg show "fround x = Fin (round_double x)"
    by (simp add: fround_def Let_def)
qed

lemma round_double_ge_1: "1 \<le> x \<Longrightarrow> 3 / 4 \<le> round_double x"
  using round_double_near [of x] by (auto simp: max_def abs_le_iff split: if_splits)

lemma binary_exponent_gt:
  assumes "x \<noteq> 0"
  shows "\<bar>x\<bar> < 2 powi (binary_exponent x + 1)"
proof -
  obtain p q where pq: "quotient_of \<bar>x\<bar> = (p, q)"
    by (cases "quotient_of \<bar>x\<bar>")
  then have q: "0 < q" and x: "\<bar>x\<bar> = of_int p / of_int q"
    by (simp_all add: quotient_of_denom_pos quotient_of_div)
  from assms have "0 < \<bar>x\<bar>"
    by simp
  with q have "0 < (of_int p :: rat)"
    by (simp add: x zero_less_divide_iff)
  then have p: "0 < p"
    by simp
  define np where "np = floorlog 2 (nat p)"
  define nq where "nq = floorlog 2 (nat q)"
  have "nat p < 2 ^ np"
    using floorlog_bounds [of "nat p" 2] p by (simp add: np_def)
  then have "(of_nat (nat p) :: rat) < of_nat (2 ^ np)"
    by (simp only: of_nat_less_iff)
  then have high_p: "of_int p < (2::rat) ^ np"
    using p by simp
  have bounds_q: "2 ^ (nq - 1) \<le> nat q" "nat q < 2 ^ nq"
    using floorlog_bounds [of "nat q" 2] q by (simp_all add: nq_def)
  have nq: "0 < nq"
  proof (rule ccontr)
    assume "\<not> 0 < nq"
    with bounds_q(2) q show False
      by simp
  qed
  have "(of_nat (2 ^ (nq - 1)) :: rat) \<le> of_nat (nat q)"
    using bounds_q(1) by (simp only: of_nat_le_iff)
  then have low_q: "(2::rat) ^ (nq - 1) \<le> of_int q"
    using q by simp
  have "of_int p / of_int q < (2::rat) ^ np / 2 ^ (nq - 1)"
    using high_p low_q p by (intro frac_less) simp_all
  also have "\<dots> = 2 powi (int np - int nq + 1)"
  proof -
    have "int np - int nq + 1 = int np - int (nq - 1)"
      using nq by simp
    moreover have "(2::rat) powi (int np - int (nq - 1)) = 2 powi int np / 2 powi int (nq - 1)"
      by (rule power_int_diff) simp
    ultimately show ?thesis
      by (simp only: power_int_of_nat)
  qed
  finally have "\<bar>x\<bar> < 2 powi (int np - int nq + 1)"
    by (simp add: x)
  then show ?thesis
    by (simp add: binary_exponent_def pq np_def nq_def Let_def)
qed

lemma powi_less_cancel:
  assumes "(2::rat) powi a < 2 powi b"
  shows "a < b"
proof (rule ccontr)
  assume "\<not> a < b"
  then have "b \<le> a"
    by simp
  then have "(2::rat) powi b \<le> 2 powi a"
    by (rule power_int_increasing) simp
  with assms show False
    by simp
qed

lemma binary_exponent_unique:
  assumes "2 powi e \<le> \<bar>x\<bar>" and "\<bar>x\<bar> < 2 powi (e + 1)"
  shows "binary_exponent x = e"
proof -
  have "(0::rat) < 2 powi e"
    by simp
  with assms(1) have "0 < \<bar>x\<bar>"
    by linarith
  then have "x \<noteq> 0"
    by simp
  then have "2 powi (binary_exponent x) \<le> \<bar>x\<bar>" and "\<bar>x\<bar> < 2 powi (binary_exponent x + 1)"
    by (rule binary_exponent_le, rule binary_exponent_gt)
  with assms have up: "(2::rat) powi e < 2 powi (binary_exponent x + 1)"
    and down: "(2::rat) powi (binary_exponent x) < 2 powi (e + 1)"
    by simp_all
  have "e < binary_exponent x + 1"
    using up by (rule powi_less_cancel)
  moreover have "binary_exponent x < e + 1"
    using down by (rule powi_less_cancel)
  ultimately show ?thesis
    by simp
qed

lemma round_half_even_unique:
  assumes "\<bar>y - of_int m\<bar> < 1 / 2"
  shows "round_half_even y = m"
proof -
  have "\<bar>(of_int (round_half_even y) :: rat) - of_int m\<bar> < 1"
    using round_half_even_near [of y] assms by linarith
  then have "\<bar>(of_int (round_half_even y - m) :: rat)\<bar> < of_int 1"
    by simp
  then have "\<bar>round_half_even y - m\<bar> < 1"
    by (simp only: of_int_abs [symmetric] of_int_less_iff)
  then show ?thesis
    by simp
qed

lemma round_double_at:
  assumes "2 powi e \<le> \<bar>x\<bar>" and "\<bar>x\<bar> < 2 powi (e + 1)" and "- 1022 \<le> e"
    and "\<bar>x * 2 powi (52 - e) - of_int m\<bar> < 1 / 2"
  shows "round_double x = of_int m * 2 powi (e - 52)"
proof -
  have "(0::rat) < 2 powi e"
    by simp
  with assms(1) have "0 < \<bar>x\<bar>"
    by linarith
  then have "x \<noteq> 0"
    by simp
  moreover have "x / 2 powi (e - 52) = x * 2 powi (52 - e)"
    using power_int_minus [of "2::rat" "e - 52"] by (simp add: field_simps)
  ultimately show ?thesis
    using assms(3) round_half_even_unique [OF assms(4)]
    by (simp add: round_double_def binary_exponent_unique [OF assms(1,2)] max_def Let_def)
qed

subsection \<open>The size of the resized logo\<close>

lemma scale_in_range:
  assumes "fle (lit (3 / 100)) sc" and "fle sc (lit (80 / 100))"
  obtains r where "sc = Fin r" and "0 \<le> r" and "r \<le> 1"
  using assms by (cases sc) (auto simp: lit_3_100 lit_80_100)

lemma rat_of_int_less:
  assumes "i < 2 ^ n"
  shows "(of_int i :: rat) < 2 ^ n"
proof -
  from assms have "(of_int i :: rat) < of_int (2 ^ n)"
    by (simp only: of_int_less_iff)
  then show ?thesis
    by simp
qed

lemma py_float_small:
  assumes "0 \<le> i" and "i < 2 ^ 40"
  shows "py_float i = Inr (Fin (round_double (of_int i)))"
    and "0 \<le> round_double (of_int i)" and "round_double (of_int i) \<le> 2 * of_int i + 1"
    and "1 \<le> i \<Longrightarrow> 3 / 4 \<le> round_double (of_int i)"
proof -
  have "(of_int i :: rat) < 2 ^ 40"
    using assms(2) by (rule rat_of_int_less)
  then have "(of_int i :: rat) \<le> 2 ^ 1000"
    by simp
  with assms(1) have fin: "fround (of_int i) = Fin (round_double (of_int i))"
    and up: "round_double (of_int i) \<le> 2 * of_int i + 1"
    by (simp_all add: fround_finite)
  show "py_float i = Inr (Fin (round_double (of_int i)))"
    by (simp add: py_float_def fin)
  show "0 \<le> round_double (of_int i)"
    using assms(1) by (simp add: round_double_nonneg)
  show "round_double (of_int i) \<le> 2 * of_int i + 1"
    by (rule up)
  show "3 / 4 \<le> round_double (of_int i)" if "1 \<le> i"
  proof -
    from that have "(1::rat) \<le> of_int i"
      by simp
    then show ?thesis
      by (rule round_double_ge_1)
  qed
qed

text \<open>
  C2, as the code has it. For a scale between the two bounds, a base width and a logo
  size within the range of Pillow's sizes and a logo that is not empty, the three
  float operations of lines 124 to 126 are finite, and
  \<^item> the target width is \<open>max 1 \<lfloor>a\<rfloor>\<close> for the float product \<open>a\<close> of base width and scale,
  \<^item> the target height is \<open>max 1 \<lfloor>b\<rfloor>\<close> for the float product \<open>b\<close> of the logo's height
    and the float quotient of target width and logo width:
  \<^verbatim>\<open>int()\<close> cuts the fraction off and nothing is rounded to the nearest integer. Both
  are at least 1.
\<close>

theorem target_size_floor:
  assumes "fle (lit (3 / 100)) sc" and "fle sc (lit (80 / 100))"
    and "0 \<le> bw" and "bw < 2 ^ 31" and "0 < wo" and "wo < 2 ^ 31"
    and "0 \<le> ho" and "ho < 2 ^ 31"
  shows "\<exists>a ratio b tw th.
           int_times_float bw sc = Inr (Fin a) \<and> 0 \<le> a
           \<and> and_then (py_float wo) (int_over_float tw) = Inr (Fin ratio)
           \<and> int_times_float ho (Fin ratio) = Inr (Fin b) \<and> 0 \<le> b
           \<and> tw = max 1 \<lfloor>a\<rfloor> \<and> th = max 1 \<lfloor>b\<rfloor>
           \<and> target_size sc bw (wo, ho) = Inr (tw, th)
           \<and> 1 \<le> tw \<and> 1 \<le> th"
proof -
  from assms(1,2) obtain r where sc: "sc = Fin r" and r: "0 \<le> r" "r \<le> 1"
    by (rule scale_in_range)
  define a0 where "a0 = round_double (of_int bw)"
  have "(of_int bw :: rat) < 2 ^ 31"
    using assms(4) by (rule rat_of_int_less)
  then have bw: "py_float bw = Inr (Fin a0)" "0 \<le> a0" "a0 \<le> 2 ^ 33"
    using py_float_small [of bw] assms(3,4) by (simp_all add: a0_def)
  define a where "a = round_double (a0 * r)"
  have prod_a: "0 \<le> a0 * r" "a0 * r \<le> 2 ^ 33"
    using bw(2,3) r mult_left_le [of r a0] by simp_all
  then have "a0 * r \<le> 2 ^ 1000"
    by simp
  with prod_a(1) have a: "fround (a0 * r) = Fin a" "0 \<le> a" "a \<le> 2 * (a0 * r) + 1"
    unfolding a_def by (rule fround_finite)+
  define tw where "tw = max 1 \<lfloor>a\<rfloor>"
  have tw: "1 \<le> tw" "tw < 2 ^ 40"
  proof -
    show "1 \<le> tw"
      by (simp add: tw_def)
    have "a < 2 ^ 40"
      using a(3) prod_a(2) by simp
    then have "\<lfloor>a\<rfloor> < 2 ^ 40"
      by (simp add: floor_less_iff)
    then show "tw < 2 ^ 40"
      by (simp add: tw_def)
  qed
  define t where "t = round_double (of_int tw)"
  have "(of_int tw :: rat) < 2 ^ 40"
    using tw(2) by (rule rat_of_int_less)
  then have t: "py_float tw = Inr (Fin t)" "0 \<le> t" "t \<le> 2 ^ 42"
    using py_float_small [of tw] tw by (simp_all add: t_def)
  define d where "d = round_double (of_int wo)"
  have d: "py_float wo = Inr (Fin d)" "3 / 4 \<le> d"
    using py_float_small [of wo] assms(5,6) by (simp_all add: d_def)
  define ratio where "ratio = round_double (t / d)"
  have quot: "0 \<le> t / d" "t / d \<le> 2 ^ 43"
  proof -
    show "0 \<le> t / d"
      using t(2) d(2) by simp
    have "t / d \<le> t / (3 / 4)"
      using t(2) d(2) by (intro divide_left_mono) simp_all
    also have "\<dots> = 4 * t / 3"
      by simp
    also have "\<dots> \<le> 2 ^ 43"
      using t(3) by simp
    finally show "t / d \<le> 2 ^ 43" .
  qed
  then have "t / d \<le> 2 ^ 1000"
    by simp
  with quot(1) have ratio: "fround (t / d) = Fin ratio" "0 \<le> ratio" "ratio \<le> 2 * (t / d) + 1"
    unfolding ratio_def by (rule fround_finite)+
  define h where "h = round_double (of_int ho)"
  have "(of_int ho :: rat) < 2 ^ 31"
    using assms(8) by (rule rat_of_int_less)
  then have h: "py_float ho = Inr (Fin h)" "0 \<le> h" "h \<le> 2 ^ 42"
    using py_float_small [of ho] assms(7,8) by (simp_all add: h_def)
  define b where "b = round_double (h * ratio)"
  have prod_b: "0 \<le> h * ratio" "h * ratio \<le> 2 ^ 42 * 2 ^ 45"
  proof -
    show "0 \<le> h * ratio"
      using h(2) ratio(2) by simp
    have "ratio \<le> 2 ^ 45"
      using ratio(3) quot(2) by simp
    with h(2,3) ratio(2) show "h * ratio \<le> 2 ^ 42 * 2 ^ 45"
      by (intro mult_mono) simp_all
  qed
  then have "h * ratio \<le> 2 ^ 1000"
    by simp
  with prod_b(1) have b: "fround (h * ratio) = Fin b" "0 \<le> b"
    unfolding b_def by (rule fround_finite)+
  have "int_times_float bw sc = Inr (Fin a)"
    by (simp add: int_times_float_def and_then_def bw(1) sc a(1))
  moreover have "and_then (py_float wo) (int_over_float tw) = Inr (Fin ratio)"
    using d(2) by (simp add: int_over_float_def and_then_def d(1) t(1) ratio(1))
  moreover have "int_times_float ho (Fin ratio) = Inr (Fin b)"
    by (simp add: int_times_float_def and_then_def h(1) b(1))
  moreover have "target_size sc bw (wo, ho) = Inr (tw, max 1 \<lfloor>b\<rfloor>)"
    using d(2) a(2) b(2)
    by (simp add: target_size_def int_times_float_def int_over_float_def and_then_def
        bw(1) sc a(1) tw_def [symmetric] d(1) t(1) ratio(1) h(1) b(1))
  ultimately show ?thesis
    using a(2) b(2) tw(1) by (auto simp: tw_def)
qed

text \<open>
  The example of the specification: a base 1000 wide, the default scale 0.18 and a
  200 by 100 logo give a 180 by 90 overlay. The double 0.18 lies below 18/100 and the
  product with 1000 rounds to 180 exactly.
\<close>

lemma round_double_spec_example:
  "round_double (9 / 50) = 3242591731706757 / 18014398509481984"
  "round_double 1000 = 1000" "round_double 180 = 180" "round_double 200 = 200"
  "round_double 100 = 100"
  "round_double (180 / 200) = 8106479329266893 / 9007199254740992"
  by code_simp+

lemma round_double_spec_width:
  "round_double (1000 * (3242591731706757 / 18014398509481984)) = 180"
  using round_double_at [where e = 7 and m = "180 * 2 ^ 45"
      and x = "1000 * (3242591731706757 / 18014398509481984)"]
  by simp

lemma round_double_spec_height:
  "round_double (100 * (8106479329266893 / 9007199254740992)) = 90"
  using round_double_at [where e = 6 and m = "90 * 2 ^ 46"
      and x = "100 * (8106479329266893 / 9007199254740992)"]
  by simp

lemma fround_spec_example:
  "fround (9 / 50) = Fin (3242591731706757 / 18014398509481984)"
  "fround (1000 * (3242591731706757 / 18014398509481984)) = Fin 180"
  "fround 1000 = Fin 1000" "fround 180 = Fin 180" "fround 200 = Fin 200"
  "fround 100 = Fin 100"
  "fround (180 / 200) = Fin (8106479329266893 / 9007199254740992)"
  "fround (100 * (8106479329266893 / 9007199254740992)) = Fin 90"
  by (simp_all only: fround_def round_double_spec_example round_double_spec_width
      round_double_spec_height Let_def) simp_all

lemma and_then_Inr: "and_then (Inr x) f = f x"
  by (simp add: and_then_def)

lemma lit_18_100: "lit (9 / 50) = Fin (3242591731706757 / 18014398509481984)"
  by (simp add: lit_def fround_spec_example)

lemma target_size_spec_example: "target_size (lit (18 / 100)) 1000 (200, 100) = Inr (180, 90)"
proof -
  have w: "int_times_float 1000 (Fin (3242591731706757 / 18014398509481984)) = Inr (Fin 180)"
    by (simp only: int_times_float_def py_float_def of_int_numeral fround_spec_example
        and_then_def fmul.simps sum.case pyfloat.case)
  have ratio: "and_then (py_float 200) (int_over_float 180)
      = Inr (Fin (8106479329266893 / 9007199254740992))"
    by (simp only: int_over_float_def py_float_def of_int_numeral fround_spec_example
        and_then_def fdiv.simps sum.case pyfloat.case) simp
  have h: "int_times_float 100 (Fin (8106479329266893 / 9007199254740992)) = Inr (Fin 90)"
    by (simp only: int_times_float_def py_float_def of_int_numeral fround_spec_example
        and_then_def fmul.simps sum.case pyfloat.case)
  have "target_size (Fin (3242591731706757 / 18014398509481984)) 1000 (200, 100)
      = and_then (int_times_float 1000 (Fin (3242591731706757 / 18014398509481984))) (\<lambda>a.
        and_then (py_int a) (\<lambda>i. let tw = max 1 i in
        and_then (and_then (py_float 200) (int_over_float tw)) (\<lambda>ratio.
        and_then (int_times_float 100 ratio) (\<lambda>b.
        and_then (py_int b) (\<lambda>j. Inr (tw, max 1 j))))))"
    by (simp add: target_size_def and_then_def Let_def split: sum.splits)
  also have "\<dots> = Inr (180, 90)"
    by (simp add: w ratio h and_then_Inr)
  finally show ?thesis
    by (simp add: lit_18_100)
qed

theorem target_size_floor_witness:
  "fle (lit (3 / 100)) (lit (18 / 100)) \<and> fle (lit (18 / 100)) (lit (80 / 100))
   \<and> (0::int) \<le> 1000 \<and> (1000::int) < 2 ^ 31 \<and> (0::int) < 200 \<and> (200::int) < 2 ^ 31
   \<and> (0::int) \<le> 100 \<and> (100::int) < 2 ^ 31
   \<and> (\<exists>tw th. target_size (lit (18 / 100)) 1000 (200, 100) = Inr (tw, th) \<and> 1 \<le> tw \<and> 1 \<le> th)
   \<and> target_size (lit (18 / 100)) 1000 (200, 100) = Inr (180, 90)"
proof -
  have range: "fle (lit (3 / 100)) (lit (18 / 100))" "fle (lit (18 / 100)) (lit (80 / 100))"
    by (simp_all add: lit_18_100 lit_3_100 lit_80_100)
  have "\<exists>a ratio b tw th.
           int_times_float 1000 (lit (18 / 100)) = Inr (Fin a) \<and> 0 \<le> a
           \<and> and_then (py_float 200) (int_over_float tw) = Inr (Fin ratio)
           \<and> int_times_float 100 (Fin ratio) = Inr (Fin b) \<and> 0 \<le> b
           \<and> tw = max 1 \<lfloor>a\<rfloor> \<and> th = max 1 \<lfloor>b\<rfloor>
           \<and> target_size (lit (18 / 100)) 1000 (200, 100) = Inr (tw, th)
           \<and> 1 \<le> tw \<and> 1 \<le> th"
    by (rule target_size_floor [OF range]) simp_all
  then have "\<exists>tw th. target_size (lit (18 / 100)) 1000 (200, 100) = Inr (tw, th) \<and> 1 \<le> tw \<and> 1 \<le> th"
    by blast
  moreover have "(0::int) \<le> 1000 \<and> (1000::int) < 2 ^ 31 \<and> (0::int) < 200 \<and> (200::int) < 2 ^ 31
      \<and> (0::int) \<le> 100 \<and> (100::int) < 2 ^ 31"
    by simp
  ultimately show ?thesis
    using range target_size_spec_example by blast
qed

text \<open>
  The claim as written gives the height as the rounding of \<open>Ho \<times> Wt / Wo\<close>. A base 4
  wide at scale 0.75 and a 4 by 5 logo are the counterexample: every float operation
  is exact, the target width is 3, and the height is 3 where rounding 3.75 gives 4.
\<close>

theorem target_height_not_rounded:
  "clamp_float (Fin (3 / 4)) (lit (3 / 100)) (lit (80 / 100)) = Fin (3 / 4)
   \<and> target_size (Fin (3 / 4)) 4 (4, 5) = Inr (3, 3)
   \<and> round ((5::real) * 3 / 4) = 4"
proof -
  have "round ((5::real) * 3 / 4) = 4"
    unfolding round_def by (rule floor_unique) simp_all
  then show ?thesis
    by (simp add: target_size_example clamp_float_def fgt_def lit_3_100 lit_80_100)
qed

lemma clamp_float_exact:
  assumes "fle lo hi"
  shows "(flt v lo \<longrightarrow> clamp_float v lo hi = lo) \<and> (fgt v hi \<longrightarrow> clamp_float v lo hi = hi)"
  using assms by (cases v; cases lo; cases hi) (auto simp: clamp_float_def fgt_def)

text \<open>
  C3. A scale outside [0.03, 0.80] is to be clamped into the interval, and no supplied
  value is to fail the request. The code misses one float: at NaN both comparisons of
  \<open>clamp_float\<close> are false, so NaN is returned as it came, outside the interval, for the
  scale and for the opacity alike; with the scale NaN, \<^verbatim>\<open>int(base_w * sc)\<close> at line 124
  raises \<^verbatim>\<open>ValueError\<close>, nothing catches it, and a request that is served at scale
  0.75 ends with status 500.
\<close>

theorem nan_scale_uncaught:
  "clamp_float NaN (lit (3 / 100)) (lit (80 / 100)) = NaN
   \<and> \<not> fle (lit (3 / 100)) NaN \<and> \<not> fle NaN (lit (80 / 100))
   \<and> clamp_float NaN (lit (5 / 100)) (lit 1) = NaN
   \<and> normalize_params example_world (example_request\<lparr>scale := Some NaN\<rparr>)
       = Inr \<lparr>pos_of = ''top_left'', margin_of = 0, sc_of = NaN, op_of = Fin 1\<rparr>
   \<and> overlay_logo example_pil example_world (example_request\<lparr>scale := Some NaN\<rparr>)
       = ([], Inl (Uncaught ValueError))
   \<and> status_code (Uncaught ValueError) = 500
   \<and> overlay_logo example_pil example_world example_request = ([], Inr [7, 9])"
proof -
  have clamp: "clamp_float NaN (lit (3 / 100)) (lit (80 / 100)) = NaN"
    "clamp_float NaN (lit (5 / 100)) (lit 1) = NaN"
    by (simp_all add: clamp_float_def fgt_def lit_3_100 lit_80_100 lit_5_100 lit_1)
  have outside: "\<not> fle (lit (3 / 100)) NaN" "\<not> fle NaN (lit (80 / 100))"
    by (simp_all add: lit_3_100 lit_80_100)
  have token: "require_token example_world (authorization (example_request\<lparr>scale := Some NaN\<rparr>))
      = Inr ()"
    "require_token example_world (authorization example_request) = Inr ()"
    by (simp_all add: example_request_def example_world_def require_token_def getenv_def)
  have params: "normalize_params example_world (example_request\<lparr>scale := Some NaN\<rparr>)
      = Inr \<lparr>pos_of = ''top_left'', margin_of = 0, sc_of = NaN, op_of = Fin 1\<rparr>"
    "normalize_params example_world example_request
      = Inr \<lparr>pos_of = ''top_left'', margin_of = 0, sc_of = Fin (3 / 4), op_of = Fin 1\<rparr>"
    by (simp_all add: example_request_def example_world_def getenv_def normalize_params_def
        and_then_def top_left_normal POSITIONS_def clamp_float_def fgt_def
        lit_3_100 lit_80_100 lit_5_100 lit_1)
  have base: "load_base example_world (example_request\<lparr>scale := Some NaN\<rparr>)
      = ([], Inr \<lparr>isize = (4, 2), ipixels = [7]\<rparr>)"
    "load_base example_world example_request = ([], Inr \<lparr>isize = (4, 2), ipixels = [7]\<rparr>)"
    by (simp_all add: example_request_def example_world_def load_base_def)
  have logo: "load_logo example_world (logo_url (example_request\<lparr>scale := Some NaN\<rparr>))
      = ([], Inr \<lparr>isize = (4, 5), ipixels = [9]\<rparr>)"
    "load_logo example_world (logo_url example_request)
      = ([], Inr \<lparr>isize = (4, 5), ipixels = [9]\<rparr>)"
    by (simp_all add: example_request_def example_world_def load_logo_def getenv_def)
  have "target_size NaN 4 (4, 5) = Inl ValueError"
    by (simp add: target_size_def int_times_float_def and_then_def py_float_def fround_exact)
  then have failed: "composite example_pil
      \<lparr>pos_of = ''top_left'', margin_of = 0, sc_of = NaN, op_of = Fin 1\<rparr> 0 (Suc 0)
      [\<lparr>isize = (4, 2), ipixels = [7]\<rparr>, \<lparr>isize = (4, 5), ipixels = [9]\<rparr>]
      = Inl (Uncaught ValueError)"
    by (simp add: composite_def)
  have "overlay_logo example_pil example_world (example_request\<lparr>scale := Some NaN\<rparr>)
      = ([], Inl (Uncaught ValueError))"
    using overlay_logo_steps [OF token(1) params(1) base(1) logo(1), where L = example_pil]
    by (simp add: failed)
  moreover have "overlay_logo example_pil example_world example_request = ([], Inr [7, 9])"
    using overlay_logo_steps [OF token(2) params(2) base(2) logo(2), where L = example_pil]
    by (simp add: example_composite)
  ultimately show ?thesis
    using clamp outside params(1) by simp
qed

end
